theory Spec2Isabelle
  imports Main
begin

section \<open>Package outputs (outputs/outputs.go)\<close>

text \<open>
  The levels are the constants of the \<^verbatim>\<open>const\<close> block: \<^verbatim>\<open>Level\<close> is a Go \<^verbatim>\<open>int\<close>,
  so a caller can pass any integer.
\<close>

type_synonym Level = int

definition Verbose :: Level where "Verbose = 0"
definition OptionalInfo :: Level where "OptionalInfo = 1"
definition Info :: Level where "Info = 2"
definition Warning :: Level where "Warning = 3"
definition Error :: Level where "Error = 4"

text \<open>
  The package state: the two flags and the five writers. An \<^verbatim>\<open>io.Writer\<close> is a
  reference: several of the five variables may hold the same writer (as
  \<^verbatim>\<open>InitDefaultOutputs\<close> does with \<^verbatim>\<open>os.Stdout\<close>), so a writer is an index into a
  store of sinks, and \<open>None\<close> is the nil interface the variables hold before
  \<^verbatim>\<open>InitOutputs\<close> is called.
\<close>

record outputs =
  VerboseFlag :: bool
  OptionalInfoFlag :: bool
  verboseWriter :: "nat option"
  optionalInfoWriter :: "nat option"
  infoWriter :: "nat option"
  warningWriter :: "nat option"
  errorWriter :: "nat option"
  sinks :: "nat \<Rightarrow> string"

datatype panic = NilWriter

text \<open>The package's initial values: \<^verbatim>\<open>VerboseFlag = false\<close>, \<^verbatim>\<open>OptionalInfoFlag = true\<close>, nil writers.\<close>

definition initialOutputs :: outputs where
  "initialOutputs =
     \<lparr>VerboseFlag = False, OptionalInfoFlag = True, verboseWriter = None,
      optionalInfoWriter = None, infoWriter = None, warningWriter = None,
      errorWriter = None, sinks = (\<lambda>_. [])\<rparr>"

definition InitOutputs :: "outputs \<Rightarrow> nat \<Rightarrow> nat \<Rightarrow> nat \<Rightarrow> nat \<Rightarrow> nat \<Rightarrow> outputs" where
  "InitOutputs st pVerboseWriter pOptionalInfoWriter pInfoWriter pWarningWriter pErrorWriter =
     st\<lparr>verboseWriter := Some pVerboseWriter,
        optionalInfoWriter := Some pOptionalInfoWriter,
        infoWriter := Some pInfoWriter,
        warningWriter := Some pWarningWriter,
        errorWriter := Some pErrorWriter\<rparr>"

text \<open>\<^verbatim>\<open>fmt.Fprint(writer, toPrint)\<close>: appends to the sink; on a nil writer the call panics.\<close>

definition Fprint :: "outputs \<Rightarrow> nat option \<Rightarrow> string \<Rightarrow> panic + outputs" where
  "Fprint st writer toPrint =
     (case writer of
        None \<Rightarrow> Inl NilWriter
      | Some w \<Rightarrow> Inr (st\<lparr>sinks := (sinks st)(w := sinks st w @ toPrint)\<rparr>))"

text \<open>
  \<^verbatim>\<open>print\<close>: the five \<^verbatim>\<open>if\<close> statements in the order of the source; \<open>writer\<close> and
  \<open>toPrint\<close> are the local variables, rebound after each statement.
\<close>

definition print :: "outputs \<Rightarrow> Level \<Rightarrow> string \<Rightarrow> panic + outputs" where
  "print st level toPrint =
     (let writer = None in
      if level = Verbose \<and> VerboseFlag st = False then Inr st
      else
        let writer = (if level = Verbose then verboseWriter st else writer) in
        if level = OptionalInfo \<and> OptionalInfoFlag st = False then Inr st
        else
          let writer = (if level = OptionalInfo then optionalInfoWriter st else writer);
              writer = (if level = Info then infoWriter st else writer);
              writer' = (if level = Warning then warningWriter st else writer);
              toPrint' = (if level = Warning then ''WARNING: '' @ toPrint else toPrint);
              writer'' = (if level = Error then errorWriter st else writer');
              toPrint'' = (if level = Error then ''ERROR: '' @ toPrint' else toPrint')
          in Fprint st writer'' toPrint'')"

text \<open>
  Modelled from the spec: \<^verbatim>\<open>consts.LINE_BREAK\<close> (package consts is not among the
  sources); the expected outputs of the tests end every line with a line feed.
\<close>

definition LINE_BREAK :: string where
  "LINE_BREAK = [CHR 0x0A]"

text \<open>\<^verbatim>\<open>Println\<close> and \<^verbatim>\<open>Print\<close>, for an already formatted message.\<close>

definition Println :: "outputs \<Rightarrow> Level \<Rightarrow> string \<Rightarrow> panic + outputs" where
  "Println st level v = print st level (v @ LINE_BREAK)"

definition Print :: "outputs \<Rightarrow> Level \<Rightarrow> string \<Rightarrow> panic + outputs" where
  "Print st level v = print st level v"

section \<open>Properties of package outputs\<close>

text \<open>
  C10. A Warning message goes to the warning writer behind the prefix
  \<open>WARNING: \<close>, an Error message to the error writer behind \<open>ERROR: \<close>; a Verbose
  message is written (to the verbose writer) only when \<open>VerboseFlag\<close> holds and an
  OptionalInfo message only when \<open>OptionalInfoFlag\<close> holds, and otherwise the state
  is left as it was; an Info message is always written, unprefixed, to the info
  writer. A write is \<open>Fprint\<close>: it appends to the sink of the writer.
\<close>

theorem print_by_level:
  "print st Warning msg = Fprint st (warningWriter st) (''WARNING: '' @ msg)
   \<and> print st Error msg = Fprint st (errorWriter st) (''ERROR: '' @ msg)
   \<and> print st Verbose msg = (if VerboseFlag st then Fprint st (verboseWriter st) msg else Inr st)
   \<and> print st OptionalInfo msg =
       (if OptionalInfoFlag st then Fprint st (optionalInfoWriter st) msg else Inr st)
   \<and> print st Info msg = Fprint st (infoWriter st) msg"
  by (simp add: print_def Verbose_def OptionalInfo_def Info_def Warning_def Error_def)

theorem print_by_level_witness:
  "sinks (projr (print (InitOutputs initialOutputs 0 1 2 3 4) Warning ''w'')) 3 = ''WARNING: w''
   \<and> sinks (projr (print (InitOutputs initialOutputs 0 1 2 3 4) Error ''e'')) 4 = ''ERROR: e''
   \<and> print (InitOutputs initialOutputs 0 1 2 3 4) Verbose ''v''
       = Inr (InitOutputs initialOutputs 0 1 2 3 4)
   \<and> sinks (projr (print (InitOutputs initialOutputs 0 1 2 3 4) OptionalInfo ''o'')) 1 = ''o''
   \<and> sinks (projr (print (InitOutputs initialOutputs 0 1 2 3 4) Info ''i'')) 2 = ''i''"
  using print_by_level [of "InitOutputs initialOutputs 0 1 2 3 4"]
  by (simp add: Fprint_def InitOutputs_def initialOutputs_def)

section \<open>Byte ranges and the retrieval plan of an archive\<close>

text \<open>
  A byte range is inclusive at both ends, as the cold store writes it
  (\<^verbatim>\<open>"start-end"\<close>).
\<close>

type_synonym range = "nat \<times> nat"

text \<open>
  Modelled from the spec: \<^verbatim>\<open>utils.S_1MB\<close> (package utils is not among the
  sources). The tests set \<^verbatim>\<open>archivesRetrievalMaxSize: utils.S_1MB * 2\<close> and expect
  the first retrieval \<^verbatim>\<open>"0-2097151"\<close>.
\<close>

definition S_1MB :: nat where
  "S_1MB = 1048576"

definition ceilDiv :: "nat \<Rightarrow> nat \<Rightarrow> nat" where
  "ceilDiv n c = (n + c - 1) div c"





text \<open>
  Modelled from the spec: the split that section 8 states for an archive of declared
  size \<open>N\<close> and a ceiling \<open>C\<close>, \<open>[0,C-1], [C,2C-1], \<dots>, [(k-1)C, N-1]\<close>
  (section 4.2, step 2: contiguous parts of size at most the ceiling). It is kept to
  compare the planner with.
\<close>

function splitParts :: "nat \<Rightarrow> nat \<Rightarrow> nat \<Rightarrow> range list" where
  "splitParts C start N =
     (if C = 0 \<or> N \<le> start then []
      else (start, min (start + C) N - 1) # splitParts C (min (start + C) N) N)"
  by pat_completeness auto
termination
  by (relation "measure (\<lambda>(C, start, N). N - start)") auto

declare splitParts.simps [simp del]

text \<open>
  What sections 3 and 4.2 require of the parts emitted for one archive, whatever
  their sizes: they start at \<open>start\<close>, each part is not empty and not longer than
  the ceiling, each part begins right after the one before, and the last one ends at
  \<open>N - 1\<close>.
\<close>

fun isPlan :: "nat \<Rightarrow> nat \<Rightarrow> nat \<Rightarrow> range list \<Rightarrow> bool" where
  "isPlan C start N [] = (start = N)"
| "isPlan C start N (r # rs) =
     (fst r = start \<and> fst r \<le> snd r \<and> snd r < N \<and> snd r + 1 - fst r \<le> C
      \<and> isPlan C (snd r + 1) N rs)"

text \<open>
  Modelled from the spec: the retrieval planner (core/downloadArchives.go is not among
  the sources; its tests are). Sections 4.1 to 4.3: the planner emits the next part of
  the archive when the budget has room for it, and otherwise waits for the download
  loop, which frees what it has downloaded. The numbers are the ones the tests of
  core/downloadArchives_test.go fix: \<^verbatim>\<open>archivesRetrievalMaxSize\<close> bounds the bytes
  retrieved and not yet downloaded (\<open>inFlight\<close>); between two emissions the loop
  downloads what the speed gives in five minutes
  (\<^verbatim>\<open>speedInBytesBySec: 3496, // 1048800 on 5 min\<close>); a part that ends the archive
  takes all the remaining bytes if they fit, and any other part is a whole number of
  megabytes.
\<close>

definition downloadWindow :: "nat \<Rightarrow> nat" where
  "downloadWindow speedInBytesBySec = speedInBytesBySec * 300"

definition nextPartSize :: "nat \<Rightarrow> nat \<Rightarrow> nat \<Rightarrow> nat" where
  "nextPartSize C inFlight remaining =
     (let free = C - inFlight in
      if remaining \<le> free then remaining else free div S_1MB * S_1MB)"

text \<open>
  \<open>planParts C W inFlight start N\<close>: the parts of \<open>[start, N)\<close> in the order of
  their emission, and the bytes in flight after the last one. \<open>None\<close> is a planner
  that waits for ever: there is no room for a part and nothing left to download.
\<close>

function planParts :: "nat \<Rightarrow> nat \<Rightarrow> nat \<Rightarrow> nat \<Rightarrow> nat \<Rightarrow> (range list \<times> nat) option" where
  "planParts C W inFlight start N =
     (if N \<le> start then Some ([], inFlight)
      else if 0 < nextPartSize C inFlight (N - start) then
        (case planParts C W (inFlight + nextPartSize C inFlight (N - start))
                (start + nextPartSize C inFlight (N - start)) N of
           None \<Rightarrow> None
         | Some (ps, i) \<Rightarrow>
             Some ((start, start + nextPartSize C inFlight (N - start) - 1) # ps, i))
      else if 0 < W \<and> 0 < inFlight then planParts C W (inFlight - min W inFlight) start N
      else None)"
  by pat_completeness auto
termination
  by (relation "measures [\<lambda>(C, W, inFlight, start, N). N - start,
                          \<lambda>(C, W, inFlight, start, N). inFlight]") auto

declare planParts.simps [simp del]


definition secondArchiveRanges :: "range list" where
  "secondArchiveRanges = [(0, 1048575), (1048576, 2097151)]"

subsection \<open>Properties of plans\<close>

lemma isPlan_le: "isPlan C start N ps \<Longrightarrow> start \<le> N"
  by (induction ps arbitrary: start) auto


lemma ceilDiv_le: "0 < C \<Longrightarrow> n \<le> k * C \<Longrightarrow> ceilDiv n C \<le> k"
proof -
  assume "0 < C" "n \<le> k * C"
  then have "n + C - 1 < Suc k * C" by simp
  then have "(n + C - 1) div C < Suc k" by (rule less_mult_imp_div_less)
  then show ?thesis by (simp add: ceilDiv_def)
qed

lemma ceilDiv_gt: "0 < C \<Longrightarrow> k * C < n \<Longrightarrow> k < ceilDiv n C"
proof -
  assume C: "0 < C" and "k * C < n"
  then have "Suc k * C \<le> n + C - 1" by simp
  with C have "Suc k \<le> (n + C - 1) div C" by (simp only: less_eq_div_iff_mult_less_eq)
  then show ?thesis by (simp add: ceilDiv_def)
qed

lemma ceilDiv_eq: "0 < C \<Longrightarrow> k * C < n \<Longrightarrow> n \<le> Suc k * C \<Longrightarrow> ceilDiv n C = Suc k"
  using ceilDiv_le [of C n "Suc k"] ceilDiv_gt [of C k n] by simp

lemma splitParts_isPlan: "0 < C \<Longrightarrow> start \<le> N \<Longrightarrow> isPlan C start N (splitParts C start N)"
proof (induction C start N rule: splitParts.induct)
  case (1 C start N)
  show ?case
  proof (cases "N \<le> start")
    case True
    with 1 show ?thesis by (simp add: splitParts.simps)
  next
    case False
    with 1 show ?thesis
      by (subst splitParts.simps) (auto simp: min_def)
  qed
qed

lemma splitParts_formula:
  "0 < C \<Longrightarrow> start = k * C \<Longrightarrow>
   splitParts C start N = map (\<lambda>i. (i * C, min (Suc i * C) N - 1)) [k..<ceilDiv N C]"
proof (induction C start N arbitrary: k rule: splitParts.induct)
  case (1 C start N)
  show ?case
  proof (cases "N \<le> start")
    case True
    with 1 have "ceilDiv N C \<le> k" by (simp add: ceilDiv_le)
    with True show ?thesis by (simp add: splitParts.simps)
  next
    case False
    with 1 have lt: "k * C < N" by simp
    then have klt: "k < ceilDiv N C" using "1.prems" by (simp add: ceilDiv_gt)
    show ?thesis
    proof (cases "start + C \<le> N")
      case True
      then have m: "min (start + C) N = Suc k * C" using 1 by simp
      have "splitParts C (Suc k * C) N
            = map (\<lambda>i. (i * C, min (Suc i * C) N - 1)) [Suc k..<ceilDiv N C]"
        using "1.IH" [of "Suc k"] False "1.prems" m by simp
      then show ?thesis
        using False "1.prems" m klt
        by (subst splitParts.simps) (simp add: upt_conv_Cons)
    next
      case F2: False
      then have "N \<le> Suc k * C" using 1 by simp
      with lt "1.prems" have cd: "ceilDiv N C = Suc k" by (simp add: ceilDiv_eq)
      have "splitParts C N N = []" by (simp add: splitParts.simps)
      then show ?thesis
        using False F2 "1.prems" cd
        by (subst splitParts.simps) (simp add: min_def)
    qed
  qed
qed








subsection \<open>The planner\<close>



lemma planParts_second_archive:
  "planParts (2 * S_1MB) (downloadWindow 3496) 2096704 0 2097152
     = Some (secondArchiveRanges, 2096256)"
  by (simp add: planParts.simps nextPartSize_def S_1MB_def secondArchiveRanges_def
      downloadWindow_def)







end
